theory Spec2Isabelle
  imports Main "HOL-Library.Word"
begin

section \<open>The payment relation\<close>

text \<open>
  The table \<^verbatim>\<open>payment\<close> of \<^verbatim>\<open>db/schema.js\<close> and of the migration
  \<^verbatim>\<open>drizzle/0000_magenta_roland_deschain.sql\<close>. A row is a record with the columns of
  the schema; the column \<^verbatim>\<open>id\<close> is called \<open>payment_id\<close> here, since \<open>id\<close> is the
  identity function of HOL. Nullable columns (\<^verbatim>\<open>txn_id\<close>, \<^verbatim>\<open>updated_at\<close>) are
  options. The column \<^verbatim>\<open>amount\<close> has the type \<^verbatim>\<open>integer\<close> of PostgreSQL, a signed
  integer of 32 bits: a word, read with \<open>sint\<close>. Timestamps are integers (milliseconds
  since the epoch, the value of a JavaScript \<^verbatim>\<open>Date\<close>).
\<close>

record payment =
  payment_id :: nat
  txnId :: "string option"
  amount :: "32 word"
  ref :: string
  content :: string
  status :: bool
  createdAt :: int
  updatedAt :: "int option"

text \<open>
  The persisted state: the rows of the table in the order in which a \<^verbatim>\<open>SELECT\<close> without
  \<^verbatim>\<open>ORDER BY\<close> returns them, and the next value of the sequence behind the
  \<^verbatim>\<open>serial\<close> column.
\<close>

record storage =
  rows :: "payment list"
  seq :: nat

text \<open>
  What a handler can throw or receive from a rejected promise. Every handler catches it
  and sends its \<^verbatim>\<open>message\<close>.
\<close>

datatype exn =
    TypeError string
  | ReferenceError string
  | Error string
  | DatabaseError string

fun message :: "exn \<Rightarrow> string" where
  "message (TypeError m) = m"
| "message (ReferenceError m) = m"
| "message (Error m) = m"
| "message (DatabaseError m) = m"

text \<open>
  What a handler sends with \<^verbatim>\<open>reply.code(c).send({success: b, ...})\<close>: the status code
  (200 when \<^verbatim>\<open>code\<close> is not called), the flag \<^verbatim>\<open>success\<close>, and the remaining field of
  the object.
\<close>

text \<open>
  A field of a request that its schema declares as \<^verbatim>\<open>type: 'number'\<close>, as the handler
  receives it: \<open>Integral n\<close> for a number with the integer value \<open>n\<close>, which
  JavaScript prints as the decimal digits of \<open>n\<close>, and \<open>Fractional t\<close> for any other
  number, where \<open>t\<close> is the text that JavaScript prints for it, with a fraction or an
  exponent (\<^verbatim>\<open>50000.5\<close>, \<^verbatim>\<open>1e+21\<close>). The driver sends a number to the database as
  this text.
\<close>

datatype number =
    Integral int
  | Fractional string

datatype body =
    ErrorField string
  | MessageField string
  | DataField "string option" string number

datatype reply = Reply nat bool body

section \<open>Strings\<close>

text \<open>
  \<^verbatim>\<open>String.prototype.startsWith\<close> and \<^verbatim>\<open>String.prototype.includes\<close>: \<open>includes_str w t\<close> is
  \<^verbatim>\<open>w.includes(t)\<close>, true when \<open>t\<close> occurs in \<open>w\<close> as a contiguous run of characters.
\<close>

fun startsWith :: "string \<Rightarrow> string \<Rightarrow> bool" where
  "startsWith w [] = True"
| "startsWith [] (c # t) = False"
| "startsWith (d # w) (c # t) = (d = c \<and> startsWith w t)"

fun includes_str :: "string \<Rightarrow> string \<Rightarrow> bool" where
  "includes_str [] t = (t = [])"
| "includes_str (d # w) t = (startsWith (d # w) t \<or> includes_str w t)"

text \<open>The decimal text of an integer, as \<^verbatim>\<open>Number.prototype.toString\<close> prints it.\<close>

definition digit :: "nat \<Rightarrow> char" where
  "digit d = ''0123456789'' ! d"

function show_nat :: "nat \<Rightarrow> string" where
  "show_nat n =
     (if n < 10 then [digit n]
      else show_nat (n div 10) @ [digit (n mod 10)])"
  by pat_completeness auto
termination
  by (relation "measure (\<lambda>n. n)") auto

declare show_nat.simps [simp del]

definition show_int :: "int \<Rightarrow> string" where
  "show_int i = (if i < 0 then ''-'' @ show_nat (nat (- i)) else show_nat (nat i))"

section \<open>What the database rejects\<close>

text \<open>
  The ways in which PostgreSQL rejects a statement on this table, with the text of
  \<^verbatim>\<open>error.message\<close>: a value wider than its \<^verbatim>\<open>varchar(n)\<close> column, a row that
  repeats a value of a \<^verbatim>\<open>UNIQUE\<close> column, and a number that is not a value of the
  type \<^verbatim>\<open>integer\<close>. \<open>CHR 0x22\<close> is the double quote.
\<close>

definition value_too_long :: "string \<Rightarrow> exn" where
  "value_too_long n =
     DatabaseError (''value too long for type character varying('' @ n @ '')'')"

definition unique_violation :: "string \<Rightarrow> exn" where
  "unique_violation c =
     DatabaseError (''duplicate key value violates unique constraint '' @
       [CHR 0x22] @ c @ [CHR 0x22])"

definition out_of_range :: "int \<Rightarrow> exn" where
  "out_of_range n =
     DatabaseError (''value '' @ [CHR 0x22] @ show_int n @ [CHR 0x22] @
       '' is out of range for type integer'')"

definition invalid_integer :: "string \<Rightarrow> exn" where
  "invalid_integer t =
     DatabaseError (''invalid input syntax for type integer: '' @
       [CHR 0x22] @ t @ [CHR 0x22])"

text \<open>
  A number that a statement compares with the column \<^verbatim>\<open>amount\<close>, or stores in it, is
  sent as its text and read by the database as an \<^verbatim>\<open>integer\<close>: the statement is
  rejected, before it runs, unless the number is an integer from \<open>- 2 ^ 31\<close> to
  \<open>2 ^ 31 - 1\<close>.
\<close>

definition int4_in :: "number \<Rightarrow> exn + 32 word" where
  "int4_in x =
     (case x of
        Integral n \<Rightarrow>
          if - (2 ^ 31) \<le> n \<and> n < 2 ^ 31 then Inr (word_of_int n) else Inl (out_of_range n)
      | Fractional t \<Rightarrow> Inl (invalid_integer t))"

section \<open>The persistence operations of the callback handler\<close>

text \<open>
  \<^verbatim>\<open>db.select().from(payment).where(and(eq(payment.amount, transferAmount),
  eq(payment.status, false)))\<close>. \<^verbatim>\<open>transferAmount\<close> is a \<^verbatim>\<open>number\<close> of the body; the
  promise is rejected when the database cannot read it as an \<^verbatim>\<open>integer\<close>.
\<close>

definition select_pending_amount :: "storage \<Rightarrow> number \<Rightarrow> exn + payment list" where
  "select_pending_amount st transferAmount =
     (case int4_in transferAmount of
        Inl e \<Rightarrow> Inl e
      | Inr a \<Rightarrow> Inr (filter (\<lambda>p. amount p = a \<and> status p = False) (rows st)))"

text \<open>
  \<^verbatim>\<open>results.filter(p => webhookContent.includes(p.content))\<close>. The body schema of the
  route lists \<^verbatim>\<open>content\<close> among its properties and requires none, so
  \<^verbatim>\<open>webhookContent\<close> is a string or \<^verbatim>\<open>undefined\<close> (here \<open>None\<close>). The arrow function
  runs once per element: on \<^verbatim>\<open>undefined\<close> its first run throws a \<^verbatim>\<open>TypeError\<close>, and
  on an empty array it never runs.
\<close>

fun filter_includes :: "string option \<Rightarrow> payment list \<Rightarrow> exn + payment list" where
  "filter_includes (Some w) results = Inr (filter (\<lambda>p. includes_str w (content p)) results)"
| "filter_includes None [] = Inr []"
| "filter_includes None (p # results) =
     Inl (TypeError ''Cannot read properties of undefined (reading 'includes')'')"

text \<open>
  \<^verbatim>\<open>db.update(payment).set({txnId: referenceCode, status: true, updatedAt: new Date()})
  .where(eq(payment.id, i))\<close>. The statement rewrites every row whose id is \<open>i\<close>. The
  database rejects it when the new value does not fit \<^verbatim>\<open>varchar(100)\<close>, and when a row
  is rewritten while another row holds the same \<^verbatim>\<open>txn_id\<close> (constraint
  \<^verbatim>\<open>payment_txn_id_unique\<close>); a rejected statement changes nothing.
\<close>

definition set_paid :: "string \<Rightarrow> int \<Rightarrow> payment \<Rightarrow> payment" where
  "set_paid referenceCode now p =
     p\<lparr>txnId := Some referenceCode, status := True, updatedAt := Some now\<rparr>"

definition update_payment :: "storage \<Rightarrow> nat \<Rightarrow> string \<Rightarrow> int \<Rightarrow> exn + storage" where
  "update_payment st i referenceCode now =
     (if \<not> (\<exists>p \<in> set (rows st). payment_id p = i) then Inr st
      else if 100 < length referenceCode then
        Inl (value_too_long ''100'')
      else if \<exists>q \<in> set (rows st). payment_id q \<noteq> i \<and> txnId q = Some referenceCode then
        Inl (unique_violation ''payment_txn_id_unique'')
      else Inr (st\<lparr>rows :=
        map (\<lambda>p. if payment_id p = i then set_paid referenceCode now p else p) (rows st)\<rparr>))"

section \<open>POST /callback\<close>

text \<open>
  \<^verbatim>\<open>await db.select()...where(...).then(results => results.filter(...))\<close>: the value
  of \<^verbatim>\<open>payments\<close>, or what the \<^verbatim>\<open>await\<close> throws. The function of \<^verbatim>\<open>then\<close> runs
  when the select has succeeded.
\<close>

definition select_then_filter :: "storage \<Rightarrow> string option \<Rightarrow> number \<Rightarrow> exn + payment list" where
  "select_then_filter st webhookContent transferAmount =
     (case select_pending_amount st transferAmount of
        Inl e \<Rightarrow> Inl e
      | Inr results \<Rightarrow> filter_includes webhookContent results)"

text \<open>
  The handler of \<^verbatim>\<open>POST /callback\<close> in \<^verbatim>\<open>route.js\<close>, as a function from the storage
  and the three fields it reads from the body to the storage afterwards and the reply.
  \<open>now\<close> is the value of \<^verbatim>\<open>new Date()\<close>. The logging call has no effect on either.
  \<^verbatim>\<open>transferAmount\<close> and \<^verbatim>\<open>referenceCode\<close> are taken as present in the body. A
  rejected select, like every exception of the \<^verbatim>\<open>try\<close> block, ends in the
  \<^verbatim>\<open>catch\<close> block.
\<close>

definition callback_handler ::
  "storage \<Rightarrow> string option \<Rightarrow> number \<Rightarrow> string \<Rightarrow> int \<Rightarrow> storage \<times> reply" where
  "callback_handler st webhookContent transferAmount referenceCode now =
     (case select_then_filter st webhookContent transferAmount of
        Inl e \<Rightarrow> (st, Reply 500 False (ErrorField (message e)))
      | Inr payments \<Rightarrow>
          (case payments of
             [] \<Rightarrow> (st, Reply 404 False (MessageField ''Payment not found or already processed''))
           | p # _ \<Rightarrow>
               (case update_payment st (payment_id p) referenceCode now of
                  Inl e \<Rightarrow> (st, Reply 500 False (ErrorField (message e)))
                | Inr st' \<Rightarrow>
                    (st', Reply 200 True (MessageField ''Payment processed successfully'')))))"

text \<open>
  The records a callback can select: pending, with an amount equal to the transferred
  number, and with a content that occurs in the memo. \<open>candidates\<close> lists them in the
  order of the storage.
\<close>

definition selectable :: "string \<Rightarrow> number \<Rightarrow> payment \<Rightarrow> bool" where
  "selectable w transferAmount p =
     (status p = False \<and> Integral (sint (amount p)) = transferAmount \<and>
      includes_str w (content p))"

definition candidates :: "storage \<Rightarrow> string \<Rightarrow> number \<Rightarrow> payment list" where
  "candidates st w transferAmount = filter (selectable w transferAmount) (rows st)"

text \<open>
  When the database accepts the update of record \<open>p\<close> with \<open>referenceCode\<close>: the code
  fits the column, and no other record holds it as its \<^verbatim>\<open>txn_id\<close>.
\<close>

definition accepts :: "storage \<Rightarrow> payment \<Rightarrow> string \<Rightarrow> bool" where
  "accepts st p referenceCode =
     (length referenceCode \<le> 100 \<and>
      (\<forall>q \<in> set (rows st). txnId q = Some referenceCode \<longrightarrow> payment_id q = payment_id p))"

section \<open>The token generator\<close>

text \<open>
  \<^verbatim>\<open>customAlphabet(alphabet, parseInt(process.env.CONTENT_LENGTH) || 11)\<close> of the package
  \<^verbatim>\<open>nanoid\<close>. \<open>content_length\<close> is the second argument: its argument is the result of
  \<^verbatim>\<open>parseInt\<close> on the environment variable, \<open>None\<close> for \<^verbatim>\<open>NaN\<close> (the variable
  unset or not a number) and \<open>Some n\<close> for a number, taken as not negative;
  \<^verbatim>\<open>NaN\<close> and \<open>0\<close> are falsy and give 11.
\<close>

definition alphabet :: string where
  "alphabet = ''0123456789ABCDEFGHIJKLMNOPQRSTUVWXYZabcdefghijklmnopqrstuvwxyz''"

definition content_length :: "nat option \<Rightarrow> nat" where
  "content_length parsed = (case parsed of None \<Rightarrow> 11 | Some n \<Rightarrow> if n = 0 then 11 else n)"

text \<open>
  The package is not part of the repository. Its contract is that a call returns a string
  of the configured length whose symbols are chosen at random in the alphabet. The random
  choices are an argument of the model: \<open>r k\<close> is the random number behind the symbol at
  position \<open>k\<close>. A random source \<open>rng\<close> gives such a function for each call of
  \<^verbatim>\<open>nanoid()\<close>, numbered from 0; \<open>rng_after rng n\<close> is the source after \<open>n\<close> calls.
\<close>

type_synonym rng = "nat \<Rightarrow> nat \<Rightarrow> nat"

definition nanoid :: "nat \<Rightarrow> (nat \<Rightarrow> nat) \<Rightarrow> string" where
  "nanoid len r = map (\<lambda>k. alphabet ! (r k mod length alphabet)) [0..<len]"

definition rng_after :: "rng \<Rightarrow> nat \<Rightarrow> rng" where
  "rng_after rng n = (\<lambda>j. rng (j + n))"

text \<open>
  \<^verbatim>\<open>db.select().from(payment).where(eq(payment.content, content)).limit(1)\<close> and the same
  query on \<^verbatim>\<open>ref\<close>.
\<close>

definition select_by_content :: "storage \<Rightarrow> string \<Rightarrow> payment list" where
  "select_by_content st c = take 1 (filter (\<lambda>p. content p = c) (rows st))"

definition select_by_ref :: "storage \<Rightarrow> string \<Rightarrow> payment list" where
  "select_by_ref st r = take 1 (filter (\<lambda>p. ref p = r) (rows st))"

definition maxAttempts :: nat where
  "maxAttempts = 10"

text \<open>
  The \<^verbatim>\<open>while\<close> loop of \<^verbatim>\<open>generateUniqueContent\<close> on its three variables
  \<^verbatim>\<open>content\<close> (\<open>None\<close> is \<^verbatim>\<open>undefined\<close>), \<^verbatim>\<open>isUnique\<close> and \<^verbatim>\<open>attempts\<close>. The fourth
  component is not a variable of the source: it records, in order, the content that each
  \<^verbatim>\<open>select\<close> of the loop asked the database for.
\<close>

function generate_loop ::
  "nat \<Rightarrow> rng \<Rightarrow> storage \<Rightarrow> string option \<times> bool \<times> nat \<times> string list
     \<Rightarrow> string option \<times> bool \<times> nat \<times> string list" where
  "generate_loop len rng st (cont, isUnique, attempts, reads) =
     (if \<not> isUnique \<and> attempts < maxAttempts then
        (let c = nanoid len (rng attempts);
             existing = select_by_content st c
         in generate_loop len rng st
              (Some c, (if length existing = 0 then True else isUnique), attempts + 1,
               reads @ [c]))
      else (cont, isUnique, attempts, reads))"
  by pat_completeness auto
termination
  by (relation "measure (\<lambda>(len, rng, st, cont, isUnique, attempts, reads). maxAttempts - attempts)")
     auto

declare generate_loop.simps [simp del]

text \<open>
  \<^verbatim>\<open>generateUniqueContent(db)\<close>: the thrown error or the returned \<^verbatim>\<open>content\<close>, and the
  reads of the loop.
\<close>

definition generateUniqueContent ::
  "nat \<Rightarrow> rng \<Rightarrow> storage \<Rightarrow> (exn + string option) \<times> string list" where
  "generateUniqueContent len rng st =
     (case generate_loop len rng st (None, False, 0, []) of
        (cont, isUnique, attempts, reads) \<Rightarrow>
          (if \<not> isUnique
           then Inl (Error ''Failed to generate unique content after multiple attempts'')
           else Inr cont,
           reads))"

section \<open>POST /init\<close>

text \<open>
  \<^verbatim>\<open>db.insert(payment).values({amount, ref, content})\<close>. The database rejects the
  statement before it runs when it cannot read \<^verbatim>\<open>amount\<close> as an \<^verbatim>\<open>integer\<close>.
  Otherwise it takes the next
  value of the sequence for \<^verbatim>\<open>id\<close>, then rejects the row when \<^verbatim>\<open>ref\<close> or
  \<^verbatim>\<open>content\<close> is wider than its column, when \<^verbatim>\<open>content\<close> is missing (an
  \<^verbatim>\<open>undefined\<close> value is left out of the statement, and the column is \<^verbatim>\<open>NOT NULL\<close>
  without a default), and when another row has the same \<^verbatim>\<open>ref\<close> or the same
  \<^verbatim>\<open>content\<close>. A rejected statement leaves the rows as they are; a statement
  that has run uses up the value of the sequence all the same. \<open>now\<close> is the value of \<^verbatim>\<open>now()\<close>, the
  default of \<^verbatim>\<open>created_at\<close>.
\<close>

definition not_null_violation :: "string \<Rightarrow> exn" where
  "not_null_violation c =
     DatabaseError (''null value in column '' @ [CHR 0x22] @ c @ [CHR 0x22] @
       '' of relation '' @ [CHR 0x22] @ ''payment'' @ [CHR 0x22] @
       '' violates not-null constraint'')"

definition insert_payment ::
  "storage \<Rightarrow> number \<Rightarrow> string \<Rightarrow> string option \<Rightarrow> int \<Rightarrow> storage \<times> exn option" where
  "insert_payment st x r cont now =
     (case int4_in x of
        Inl e \<Rightarrow> (st, Some e)
      | Inr a \<Rightarrow>
          (let st' = st\<lparr>seq := seq st + 1\<rparr> in
           if 50 < length r then (st', Some (value_too_long ''50''))
           else case cont of
             None \<Rightarrow> (st', Some (not_null_violation ''content''))
           | Some c \<Rightarrow>
               if 20 < length c then (st', Some (value_too_long ''20''))
               else if \<exists>p \<in> set (rows st). ref p = r
                 then (st', Some (unique_violation ''payment_ref_unique''))
               else if \<exists>p \<in> set (rows st). content p = c
                 then (st', Some (unique_violation ''payment_content_unique''))
               else (st'\<lparr>rows := rows st @
                       [\<lparr>payment_id = seq st, txnId = None, amount = a, ref = r,
                         content = c, status = False, createdAt = now,
                         updatedAt = None\<rparr>]\<rparr>,
                     None)))"

text \<open>
  The handler of \<^verbatim>\<open>POST /init\<close>. Between its \<^verbatim>\<open>await\<close>s other requests run; the
  argument \<open>concurrent\<close> is what they have committed to the database between the reads
  of this handler and its insert (the identity when the handler runs alone). \<open>len\<close> is
  the configured length of a content, \<open>rng\<close> the random source, \<open>now\<close> the clock of the
  database at the insert.
\<close>

definition init_handler ::
  "(storage \<Rightarrow> storage) \<Rightarrow> nat \<Rightarrow> rng \<Rightarrow> storage \<Rightarrow> number \<Rightarrow> string \<Rightarrow> int
     \<Rightarrow> storage \<times> reply" where
  "init_handler concurrent len rng st a r now =
     (let existingRef = select_by_ref st r in
      if length existingRef > 0
      then (st, Reply 400 False (ErrorField ''Reference code already exists''))
      else case fst (generateUniqueContent len rng st) of
          Inl e \<Rightarrow> (st, Reply 500 False (ErrorField (message e)))
        | Inr cont \<Rightarrow>
            (case insert_payment (concurrent st) a r cont now of
               (st', Some e) \<Rightarrow> (st', Reply 500 False (ErrorField (message e)))
             | (st', None) \<Rightarrow> (st', Reply 200 True (DataField cont r a))))"

section \<open>GET /search\<close>

text \<open>
  The query string after validation: every field is optional. \<^verbatim>\<open>status\<close> is one of
  the strings of its \<^verbatim>\<open>enum\<close>. \<^verbatim>\<open>from\<close> and \<^verbatim>\<open>to\<close> have the format
  \<^verbatim>\<open>date\<close>; the model holds the calendar date as its number of days since 1970-01-01.
\<close>

record search_query =
  q_ref :: "string option"
  q_content :: "string option"
  q_status :: "string option"
  q_from :: "int option"
  q_to :: "int option"

text \<open>
  The operator \<^verbatim>\<open>LIKE\<close> of PostgreSQL, which \<^verbatim>\<open>like(column, pattern)\<close> of drizzle
  becomes: \<open>like s pat\<close> is \<^verbatim>\<open>s LIKE pat\<close>. In a pattern \<^verbatim>\<open>%\<close> stands for any run
  of characters, \<^verbatim>\<open>_\<close> for any one character, and a backslash (\<open>CHR 0x5C\<close>) makes the
  next character stand for itself. PostgreSQL rejects a pattern that ends in a lone
  backslash; the patterns of the handler end in \<^verbatim>\<open>%\<close>, and the model gives \<open>False\<close>
  there.
\<close>

function like :: "string \<Rightarrow> string \<Rightarrow> bool" where
  "like s [] = (s = [])"
| "like s (c # pat) =
     (if c = CHR ''%'' then
        like s pat \<or> (case s of [] \<Rightarrow> False | d # s' \<Rightarrow> like s' (c # pat))
      else if c = CHR ''_'' then
        (case s of [] \<Rightarrow> False | d # s' \<Rightarrow> like s' pat)
      else if c = CHR 0x5C then
        (case pat of
           [] \<Rightarrow> False
         | e # pat' \<Rightarrow> (case s of [] \<Rightarrow> False | d # s' \<Rightarrow> d = e \<and> like s' pat'))
      else (case s of [] \<Rightarrow> False | d # s' \<Rightarrow> d = c \<and> like s' pat))"
  by pat_completeness auto
termination
  by (relation "measure (\<lambda>(s, pat). length s + length pat)") auto

declare like.simps [simp del]

text \<open>A string without any of the three characters that a pattern reads specially.\<close>

definition plain :: "string \<Rightarrow> bool" where
  "plain t = (\<forall>c \<in> set t. c \<noteq> CHR ''%'' \<and> c \<noteq> CHR ''_'' \<and> c \<noteq> CHR 0x5C)"

text \<open>The conditions that the handler pushes, and when a row satisfies one.\<close>

datatype condition =
    LikeRef string
  | LikeContent string
  | EqStatus bool
  | GteCreatedAt int
  | LteCreatedAt int

fun holds :: "condition \<Rightarrow> payment \<Rightarrow> bool" where
  "holds (LikeRef pat) p = like (ref p) pat"
| "holds (LikeContent pat) p = like (content p) pat"
| "holds (EqStatus b) p = (status p = b)"
| "holds (GteCreatedAt t) p = (t \<le> createdAt p)"
| "holds (LteCreatedAt t) p = (createdAt p \<le> t)"

text \<open>
  \<^verbatim>\<open>new Date(from + "T00:00:00+07:00")\<close> and \<^verbatim>\<open>new Date(to + "T23:59:59+07:00")\<close> in
  milliseconds, for the calendar date with day number \<open>d\<close>.
\<close>

definition from_instant :: "int \<Rightarrow> int" where
  "from_instant d = d * 86400000 - 7 * 3600000"

definition to_instant :: "int \<Rightarrow> int" where
  "to_instant d = d * 86400000 + (23 * 3600 + 59 * 60 + 59) * 1000 - 7 * 3600000"

text \<open>
  The conditions of a query, in the order of the handler. \<^verbatim>\<open>if (ref)\<close> and
  \<^verbatim>\<open>if (content)\<close> hold of a string that is defined and not empty.
\<close>

definition conditions_of :: "search_query \<Rightarrow> condition list" where
  "conditions_of q =
     (case q_ref q of
        None \<Rightarrow> []
      | Some x \<Rightarrow> if x = [] then [] else [LikeRef (''%'' @ x @ ''%'')]) @
     (case q_content q of
        None \<Rightarrow> []
      | Some x \<Rightarrow> if x = [] then [] else [LikeContent (''%'' @ x @ ''%'')]) @
     (if q_status q = Some ''paid'' then [EqStatus True]
      else if q_status q = Some ''unpaid'' then [EqStatus False] else []) @
     (case q_from q of None \<Rightarrow> [] | Some d \<Rightarrow> [GteCreatedAt (from_instant d)]) @
     (case q_to q of None \<Rightarrow> [] | Some d \<Rightarrow> [LteCreatedAt (to_instant d)])"

text \<open>
  \<^verbatim>\<open>db.select().from(payment).where(whereClause).orderBy(payment.createdAt)\<close>: the rows
  that satisfy every condition (all rows when there is none), in ascending order of
  \<^verbatim>\<open>created_at\<close>.
\<close>

definition select_where_ordered :: "storage \<Rightarrow> condition list \<Rightarrow> payment list" where
  "select_where_ordered st conditions =
     sort_key createdAt (filter (\<lambda>p. list_all (\<lambda>c. holds c p) conditions) (rows st))"

text \<open>
  The reply of \<^verbatim>\<open>GET /search\<close>: \<open>SearchData rows n\<close> is
  \<^verbatim>\<open>reply.send({success: true, data: rows, count: n})\<close>, and \<open>SearchError c m\<close> is
  \<^verbatim>\<open>reply.code(c).send({success: false, error: m})\<close> of the \<^verbatim>\<open>catch\<close> block.
\<close>

datatype 'v search_reply =
    SearchData "'v list" nat
  | SearchError nat string

text \<open>
  The handler passes the identifier \<^verbatim>\<open>formatPaymentResponse\<close> to
  \<^verbatim>\<open>payments.map\<close>. The first argument of the model is what this identifier is bound
  to in the scope of the handler: \<open>Some f\<close> for a function, \<open>None\<close> when nothing binds
  it, and then evaluating it throws a \<^verbatim>\<open>ReferenceError\<close> inside the \<^verbatim>\<open>try\<close> block,
  after the query has run.
\<close>

definition search_handler ::
  "(payment \<Rightarrow> 'v) option \<Rightarrow> storage \<Rightarrow> search_query \<Rightarrow> 'v search_reply" where
  "search_handler binding st q =
     (let payments = select_where_ordered st (conditions_of q) in
      case binding of
        None \<Rightarrow> SearchError 500 (message (ReferenceError ''formatPaymentResponse is not defined''))
      | Some f \<Rightarrow> SearchData (map f payments) (length payments))"

text \<open>
  \<^verbatim>\<open>route.js\<close> imports \<^verbatim>\<open>apiKeyMiddleware\<close>, \<^verbatim>\<open>customAlphabet\<close>, \<^verbatim>\<open>payment\<close> and six
  operators of drizzle, and declares \<^verbatim>\<open>nanoid\<close>, \<^verbatim>\<open>generateUniqueContent\<close> and
  \<^verbatim>\<open>routes\<close>. No file of the repository declares or exports
  \<^verbatim>\<open>formatPaymentResponse\<close>: in the module, the identifier has no binding.
\<close>

definition formatPaymentResponse :: "(payment \<Rightarrow> 'v) option" where
  "formatPaymentResponse = None"

section \<open>Sample data\<close>

text \<open>
  The memo and the pending record of the example in section 8 of the specification, a
  reconciled record beside it, and a source of randomness that always draws 0.
\<close>

definition memo :: string where
  "memo = ''Chuyen tien ND abc123XYZ99 tks''"

definition pending_one :: payment where
  "pending_one = \<lparr>payment_id = 1, txnId = None, amount = 50000, ref = ''ORDER-1'',
     content = ''abc123XYZ99'', status = False, createdAt = 1000, updatedAt = None\<rparr>"

definition paid_two :: payment where
  "paid_two = \<lparr>payment_id = 2, txnId = Some ''FT24001'', amount = 70000, ref = ''ORDER-2'',
     content = ''Zk3PqW81LmN'', status = True, createdAt = 2000, updatedAt = Some 3000\<rparr>"

definition store_two :: storage where
  "store_two = \<lparr>rows = [pending_one, paid_two], seq = 3\<rparr>"

definition rng_zero :: rng where
  "rng_zero = (\<lambda>j k. 0)"

text \<open>A storage whose only record holds the content that \<open>rng_zero\<close> draws.\<close>

definition store_zero :: storage where
  "store_zero = \<lparr>rows = [pending_one\<lparr>content := ''00000000000''\<rparr>], seq = 2\<rparr>"

text \<open>Two pending records of one amount, and a memo that holds both contents.\<close>

definition twin_a :: payment where
  "twin_a = \<lparr>payment_id = 1, txnId = None, amount = 1000, ref = ''A'',
     content = ''AAAAAAAAAAA'', status = False, createdAt = 1000, updatedAt = None\<rparr>"

definition twin_b :: payment where
  "twin_b = \<lparr>payment_id = 2, txnId = None, amount = 1000, ref = ''B'',
     content = ''BBBBBBBBBBB'', status = False, createdAt = 2000, updatedAt = None\<rparr>"

definition store_twins :: storage where
  "store_twins = \<lparr>rows = [twin_a, twin_b], seq = 3\<rparr>"

definition memo_twins :: string where
  "memo_twins = ''AAAAAAAAAAA BBBBBBBBBBB''"

text \<open>
  A source of randomness that always draws 1. \<open>rival\<close> is a request to \<^verbatim>\<open>POST /init\<close>
  for the reference \<^verbatim>\<open>ORDER-3\<close> that runs alone to its end. The query is the one of the
  example in section 8 of the specification: 2024-01-01 and 2024-01-31 are the days 19723
  and 19753.
\<close>

definition rng_one :: rng where
  "rng_one = (\<lambda>j k. 1)"

definition rival :: "storage \<Rightarrow> storage" where
  "rival s = fst (init_handler id 11 rng_zero s (Integral 99000) ''ORDER-3'' 5999)"

definition january_unpaid :: search_query where
  "january_unpaid = \<lparr>q_ref = None, q_content = None, q_status = Some ''unpaid'',
     q_from = Some 19723, q_to = Some 19753\<rparr>"

section \<open>Properties\<close>

lemma startsWith_iff: "startsWith w t \<longleftrightarrow> (\<exists>ss. w = t @ ss)"
  by (induction w t rule: startsWith.induct) auto

lemma includes_iff: "includes_str w t \<longleftrightarrow> (\<exists>ps ss. w = ps @ t @ ss)"
proof (induction w)
  case Nil
  then show ?case by simp
next
  case (Cons d w)
  show ?case
  proof
    assume "includes_str (d # w) t"
    then consider "startsWith (d # w) t" | "includes_str w t" by auto
    then show "\<exists>ps ss. d # w = ps @ t @ ss"
    proof cases
      case 1
      then obtain ss where "d # w = t @ ss" by (auto simp: startsWith_iff)
      then have "d # w = [] @ t @ ss" by simp
      then show ?thesis by blast
    next
      case 2
      then obtain ps ss where "w = ps @ t @ ss" using Cons.IH by blast
      then have "d # w = (d # ps) @ t @ ss" by simp
      then show ?thesis by blast
    qed
  next
    assume "\<exists>ps ss. d # w = ps @ t @ ss"
    then obtain ps ss where eq: "d # w = ps @ t @ ss" by blast
    show "includes_str (d # w) t"
    proof (cases ps)
      case Nil
      with eq have "startsWith (d # w) t" by (auto simp: startsWith_iff)
      then show ?thesis by simp
    next
      case (Cons e ps')
      with eq have "w = ps' @ t @ ss" by simp
      then have "includes_str w t" using Cons.IH by blast
      then show ?thesis by simp
    qed
  qed
qed

subsection \<open>Numbers and the amount column\<close>

lemma int4_in_sint: "int4_in (Integral (sint a)) = Inr a"
proof -
  have "- (2 ^ 31) \<le> sint a" using sint_ge[of a] by simp
  moreover have "sint a < 2 ^ 31" using sint_lt[of a] by simp
  ultimately show ?thesis by (simp add: int4_in_def)
qed

lemma int4_in_Integral:
  assumes "- (2 ^ 31) \<le> n" "n < 2 ^ 31"
  shows "int4_in (Integral n) = Inr (word_of_int n)" "sint (word_of_int n :: 32 word) = n"
proof -
  show "int4_in (Integral n) = Inr (word_of_int n)"
    using assms by (simp add: int4_in_def)
  show "sint (word_of_int n :: 32 word) = n"
    using assms by (simp add: sint_sbintrunc' signed_take_bit_int_eq_self)
qed

lemma int4_in_Inr: "int4_in x = Inr a \<longleftrightarrow> x = Integral (sint a)"
proof
  assume "int4_in x = Inr a"
  then obtain n where x: "x = Integral n" and n: "- (2 ^ 31) \<le> n" "n < 2 ^ 31"
    and a: "a = word_of_int n"
    by (auto simp: int4_in_def split: number.splits if_splits)
  from int4_in_Integral(2)[OF n] a x show "x = Integral (sint a)" by simp
next
  assume "x = Integral (sint a)"
  then show "int4_in x = Inr a" by (simp add: int4_in_sint)
qed

lemma select_then_filter_Some:
  assumes "int4_in x = Inr a"
  shows "select_then_filter st (Some w) x = Inr (candidates st w x)"
proof -
  from assms have x: "x = Integral (sint a)" by (simp only: int4_in_Inr)
  have eq: "selectable w x p = ((amount p = a \<and> status p = False) \<and> includes_str w (content p))"
    for p
  proof -
    have "(sint (amount p) = sint a) = (amount p = a)"
    proof
      assume "sint (amount p) = sint a"
      then have "(of_int (sint (amount p)) :: 32 word) = of_int (sint a)" by (rule arg_cong)
      then show "amount p = a" by simp
    next
      assume "amount p = a"
      then show "sint (amount p) = sint a" by (rule arg_cong)
    qed
    then show ?thesis unfolding selectable_def x number.inject by blast
  qed
  have "filter (\<lambda>p. includes_str w (content p))
      (filter (\<lambda>p. amount p = a \<and> status p = False) (rows st)) =
      filter (\<lambda>p. (amount p = a \<and> status p = False) \<and> includes_str w (content p)) (rows st)"
    by (rule filter_filter)
  also have "\<dots> = filter (selectable w x) (rows st)"
    by (rule filter_cong) (simp_all only: eq)
  finally have "filter_includes (Some w)
      (filter (\<lambda>p. amount p = a \<and> status p = False) (rows st)) = Inr (candidates st w x)"
    by (simp only: filter_includes.simps candidates_def)
  with assms show ?thesis
    by (simp only: select_then_filter_def select_pending_amount_def sum.case)
qed

lemma select_then_filter_rejected:
  "int4_in x = Inl e \<Longrightarrow> select_then_filter st v x = Inl e \<and> candidates st w x = []"
proof -
  assume r: "int4_in x = Inl e"
  have "\<not> selectable w x p" for p
  proof
    assume "selectable w x p"
    then have "x = Integral (sint (amount p))" by (simp add: selectable_def)
    with r show False by (simp add: int4_in_sint)
  qed
  then have "candidates st w x = []" by (simp add: candidates_def)
  with r show ?thesis by (simp add: select_then_filter_def select_pending_amount_def)
qed

lemma candidates_int4: "candidates st w x = p # rest \<Longrightarrow> int4_in x = Inr (amount p)"
proof -
  assume "candidates st w x = p # rest"
  then have "p \<in> set (candidates st w x)" by simp
  then have "selectable w x p" by (simp add: candidates_def)
  then show ?thesis by (auto simp: selectable_def int4_in_sint)
qed

subsection \<open>The token generator\<close>

lemma nanoid_length: "length (nanoid len r) = len"
  by (simp add: nanoid_def)

lemma alphabet_length: "length alphabet = 62"
  by (simp add: alphabet_def)


lemma nanoid_alphabet: "set (nanoid len r) \<subseteq> set alphabet"
proof -
  have "alphabet ! (r k mod length alphabet) \<in> set alphabet" for k
    by (rule nth_mem) (simp add: alphabet_length)
  then show ?thesis by (auto simp: nanoid_def)
qed

lemma select_by_content_empty:
  "select_by_content st c = [] \<longleftrightarrow> c \<notin> content ` set (rows st)"
  by (auto simp: select_by_content_def take_Suc filter_empty_conv split: list.splits)

lemma select_by_ref_empty:
  "select_by_ref st r = [] \<longleftrightarrow> r \<notin> ref ` set (rows st)"
  by (auto simp: select_by_ref_def take_Suc filter_empty_conv split: list.splits)

lemma generate_loop_reads:
  "generate_loop len rng st (cont, u, n, rd) = (cont', u', n', rd') \<Longrightarrow>
     n \<le> n' \<and> rd' = rd @ map (\<lambda>j. nanoid len (rng j)) [n..<n']"
proof (induction len rng st "(cont, u, n, rd)" arbitrary: cont u n rd rule: generate_loop.induct)
  case (1 len rng st cont isUnique attempts reads)
  show ?case
  proof (cases "\<not> isUnique \<and> attempts < maxAttempts")
    case True
    let ?c = "nanoid len (rng attempts)"
    let ?u = "if length (select_by_content st ?c) = 0 then True else isUnique"
    from True "1.prems"
    have run: "generate_loop len rng st (Some ?c, ?u, attempts + 1, reads @ [?c]) = (cont', u', n', rd')"
      by (subst (asm) generate_loop.simps) (simp add: Let_def)
    from "1.hyps"[OF True refl refl run]
    have "attempts + 1 \<le> n'" and "rd' = (reads @ [?c]) @ map (\<lambda>j. nanoid len (rng j)) [attempts + 1..<n']"
      by simp_all
    then show ?thesis by (simp add: upt_conv_Cons)
  next
    case False
    with "1.prems" show ?thesis by (subst (asm) generate_loop.simps) simp
  qed
qed

lemma generate_loop_bound:
  "generate_loop len rng st (cont, u, n, rd) = (cont', u', n', rd') \<Longrightarrow>
     n \<le> maxAttempts \<Longrightarrow> n' \<le> maxAttempts"
proof (induction len rng st "(cont, u, n, rd)" arbitrary: cont u n rd rule: generate_loop.induct)
  case (1 len rng st cont isUnique attempts reads)
  show ?case
  proof (cases "\<not> isUnique \<and> attempts < maxAttempts")
    case True
    let ?c = "nanoid len (rng attempts)"
    let ?u = "if length (select_by_content st ?c) = 0 then True else isUnique"
    from True "1.prems"(1)
    have run: "generate_loop len rng st (Some ?c, ?u, attempts + 1, reads @ [?c]) = (cont', u', n', rd')"
      by (subst (asm) generate_loop.simps) (simp add: Let_def)
    from True have "attempts + 1 \<le> maxAttempts" by simp
    with "1.hyps"[OF True refl refl run] show ?thesis .
  next
    case False
    with "1.prems" show ?thesis by (subst (asm) generate_loop.simps) simp
  qed
qed

lemma generate_loop_unique:
  "generate_loop len rng st (cont, u, n, rd) = (cont', u', n', rd') \<Longrightarrow> \<not> u \<Longrightarrow> u' \<Longrightarrow>
     n < n' \<and> cont' = Some (nanoid len (rng (n' - 1))) \<and>
     select_by_content st (nanoid len (rng (n' - 1))) = []"
proof (induction len rng st "(cont, u, n, rd)" arbitrary: cont u n rd rule: generate_loop.induct)
  case (1 len rng st cont isUnique attempts reads)
  show ?case
  proof (cases "\<not> isUnique \<and> attempts < maxAttempts")
    case True
    let ?c = "nanoid len (rng attempts)"
    let ?u = "if length (select_by_content st ?c) = 0 then True else isUnique"
    from True "1.prems"(1)
    have run: "generate_loop len rng st (Some ?c, ?u, attempts + 1, reads @ [?c]) = (cont', u', n', rd')"
      by (subst (asm) generate_loop.simps) (simp add: Let_def)
    show ?thesis
    proof (cases "select_by_content st ?c = []")
      case True
      then have "generate_loop len rng st (Some ?c, True, attempts + 1, reads @ [?c]) = (cont', u', n', rd')"
        using run by simp
      then have "cont' = Some ?c \<and> n' = attempts + 1"
        by (subst (asm) generate_loop.simps) simp
      with True show ?thesis by simp
    next
      case False
      with \<open>\<not> isUnique\<close> have nu: "\<not> ?u" by simp
      from "1.hyps"[OF True refl refl run nu \<open>u'\<close>] show ?thesis by simp
    qed
  next
    case False
    with "1.prems" show ?thesis by (subst (asm) generate_loop.simps) simp
  qed
qed

lemma generate_loop_exhausted:
  "generate_loop len rng st (cont, u, n, rd) = (cont', u', n', rd') \<Longrightarrow> \<not> u \<Longrightarrow>
     n \<le> maxAttempts \<Longrightarrow>
     (\<forall>j. n \<le> j \<and> j < maxAttempts \<longrightarrow> select_by_content st (nanoid len (rng j)) \<noteq> []) \<Longrightarrow>
     \<not> u' \<and> n' = maxAttempts"
proof (induction len rng st "(cont, u, n, rd)" arbitrary: cont u n rd rule: generate_loop.induct)
  case (1 len rng st cont isUnique attempts reads)
  show ?case
  proof (cases "\<not> isUnique \<and> attempts < maxAttempts")
    case True
    let ?c = "nanoid len (rng attempts)"
    let ?u = "if length (select_by_content st ?c) = 0 then True else isUnique"
    from True "1.prems"(1)
    have run: "generate_loop len rng st (Some ?c, ?u, attempts + 1, reads @ [?c]) = (cont', u', n', rd')"
      by (subst (asm) generate_loop.simps) (simp add: Let_def)
    from True "1.prems"(4) have "select_by_content st ?c \<noteq> []" by simp
    with \<open>\<not> isUnique\<close> have nu: "\<not> ?u" by simp
    from True have le: "attempts + 1 \<le> maxAttempts" by simp
    from "1.prems"(4)
    have rest: "\<forall>j. attempts + 1 \<le> j \<and> j < maxAttempts \<longrightarrow>
        select_by_content st (nanoid len (rng j)) \<noteq> []" by simp
    from "1.hyps"[OF True refl refl run nu le rest] show ?thesis .
  next
    case False
    with "1.prems" show ?thesis by (subst (asm) generate_loop.simps) auto
  qed
qed

lemma generateUniqueContent_cases:
  obtains (exhausted) reads where
      "generateUniqueContent len rng st =
         (Inl (Error ''Failed to generate unique content after multiple attempts''), reads)"
    | (unique) n reads where
      "generateUniqueContent len rng st = (Inr (Some (nanoid len (rng n))), reads)"
      "nanoid len (rng n) \<notin> content ` set (rows st)"
proof -
  obtain cont u n rd where
    run: "generate_loop len rng st (None, False, 0, []) = (cont, u, n, rd)"
    by (metis prod_cases4)
  show thesis
  proof (cases u)
    case True
    from generate_loop_unique[OF run _ True]
    have "cont = Some (nanoid len (rng (n - 1)))"
      and "select_by_content st (nanoid len (rng (n - 1))) = []" by simp_all
    with run True show thesis
      by (intro unique[of "n - 1" rd]) (simp_all add: generateUniqueContent_def select_by_content_empty)
  next
    case False
    with run show thesis
      by (intro exhausted[of rd]) (simp add: generateUniqueContent_def)
  qed
qed

text \<open>
  Claim C8, as amended. Every content that \<^verbatim>\<open>generateUniqueContent\<close> returns has the
  configured length (11 when nothing is configured), has all its characters in the
  alphabet of 62 symbols, and is the content of no record of the storage that was read.
  Consequently a later call on a storage that holds a record with this content does not
  return it again.
\<close>
theorem generateUniqueContent_content:
  assumes "fst (generateUniqueContent (content_length parsed) rng st) = Inr v"
  shows "\<exists>c. v = Some c \<and> length c = content_length parsed \<and> set c \<subseteq> set alphabet \<and>
           length alphabet = 62 \<and> content_length None = 11 \<and>
           c \<notin> content ` set (rows st) \<and>
           (\<forall>rng' st' v'. c \<in> content ` set (rows st') \<and>
               fst (generateUniqueContent (content_length parsed) rng' st') = Inr v'
               \<longrightarrow> v' \<noteq> Some c)"
proof (cases "content_length parsed" rng st rule: generateUniqueContent_cases)
  case (exhausted reads)
  with assms show ?thesis by simp
next
  case (unique n reads)
  let ?c = "nanoid (content_length parsed) (rng n)"
  have later: "v' \<noteq> Some ?c"
    if "?c \<in> content ` set (rows st')"
      and "fst (generateUniqueContent (content_length parsed) rng' st') = Inr v'"
    for rng' st' v'
  proof (cases "content_length parsed" rng' st' rule: generateUniqueContent_cases)
    case (exhausted reads')
    with that show ?thesis by simp
  next
    case (unique m reads')
    with that show ?thesis by auto
  qed
  from unique assms have v: "v = Some ?c" by simp
  have "length ?c = content_length parsed" by (rule nanoid_length)
  moreover have "set ?c \<subseteq> set alphabet" by (rule nanoid_alphabet)
  moreover have "content_length None = 11" by (simp add: content_length_def)
  moreover note unique(2) alphabet_length v
  moreover have "\<forall>rng' st' v'. ?c \<in> content ` set (rows st') \<and>
      fst (generateUniqueContent (content_length parsed) rng' st') = Inr v' \<longrightarrow> v' \<noteq> Some ?c"
    using later by blast
  ultimately show ?thesis by blast
qed

theorem generateUniqueContent_content_witness:
  "fst (generateUniqueContent (content_length None) rng_zero store_two) =
     Inr (Some ''00000000000'') \<and>
   length ''00000000000'' = content_length None \<and>
   set ''00000000000'' \<subseteq> set alphabet \<and>
   ''00000000000'' \<notin> content ` set (rows store_two)"
proof -
  have h: "fst (generateUniqueContent (content_length None) rng_zero store_two) = Inr (Some ''00000000000'')"
    by code_simp
  from generateUniqueContent_content[OF h] h show ?thesis by auto
qed

text \<open>
  Claim C8 as stated fails: two calls in sequence on the same storage, the second with
  the random source as the first left it, return the same content when the source draws
  the same symbols twice.
\<close>
theorem generateUniqueContent_repeats:
  "fst (generateUniqueContent 11 rng_zero store_two) = Inr (Some ''00000000000'') \<and>
   snd (generateUniqueContent 11 rng_zero store_two) = [''00000000000''] \<and>
   fst (generateUniqueContent 11 (rng_after rng_zero 1) store_two) = Inr (Some ''00000000000'')"
  by code_simp

text \<open>
  Claim C9. \<^verbatim>\<open>generateUniqueContent\<close> is a total function: it always returns. It reads the
  database at most 10 times, once for each content it draws, and has no other access to
  the storage. When the first 10 contents drawn are all held by records, it fails with
  its error after 10 reads, and the handler of \<^verbatim>\<open>POST /init\<close>, past its check on
  \<^verbatim>\<open>ref\<close>, replies 500 with the message of this error and leaves the storage as it
  was.
\<close>
theorem generateUniqueContent_bounded:
  "length (snd (generateUniqueContent len rng st)) \<le> 10 \<and>
   snd (generateUniqueContent len rng st) =
     map (\<lambda>j. nanoid len (rng j)) [0..<length (snd (generateUniqueContent len rng st))] \<and>
   ((\<forall>j<10. nanoid len (rng j) \<in> content ` set (rows st)) \<longrightarrow>
      generateUniqueContent len rng st =
        (Inl (Error ''Failed to generate unique content after multiple attempts''),
         map (\<lambda>j. nanoid len (rng j)) [0..<10]) \<and>
      (r \<notin> ref ` set (rows st) \<longrightarrow>
         init_handler concurrent len rng st a r now =
           (st, Reply 500 False
              (ErrorField ''Failed to generate unique content after multiple attempts''))))"
proof -
  obtain cont u n rd where
    run: "generate_loop len rng st (None, False, 0, []) = (cont, u, n, rd)"
    by (metis prod_cases4)
  have rd: "rd = map (\<lambda>j. nanoid len (rng j)) [0..<n]"
    using generate_loop_reads[OF run] by simp
  have n: "n \<le> 10"
    using generate_loop_bound[OF run] by (simp add: maxAttempts_def)
  have snd_eq: "snd (generateUniqueContent len rng st) = rd"
    using run by (simp add: generateUniqueContent_def)
  have bounded: "length (snd (generateUniqueContent len rng st)) \<le> 10"
    using snd_eq rd n by simp
  have reads: "snd (generateUniqueContent len rng st) =
     map (\<lambda>j. nanoid len (rng j)) [0..<length (snd (generateUniqueContent len rng st))]"
    using snd_eq rd by simp
  have exhausted: "generateUniqueContent len rng st =
        (Inl (Error ''Failed to generate unique content after multiple attempts''),
         map (\<lambda>j. nanoid len (rng j)) [0..<10]) \<and>
      (r \<notin> ref ` set (rows st) \<longrightarrow>
         init_handler concurrent len rng st a r now =
           (st, Reply 500 False
              (ErrorField ''Failed to generate unique content after multiple attempts'')))"
    if collide: "\<forall>j<10. nanoid len (rng j) \<in> content ` set (rows st)"
  proof -
    from collide
    have "\<forall>j. 0 \<le> j \<and> j < maxAttempts \<longrightarrow> select_by_content st (nanoid len (rng j)) \<noteq> []"
      by (simp add: select_by_content_empty maxAttempts_def)
    from generate_loop_exhausted[OF run _ _ this]
    have "\<not> u" and "n = 10" by (simp_all add: maxAttempts_def)
    with run rd have gen: "generateUniqueContent len rng st =
        (Inl (Error ''Failed to generate unique content after multiple attempts''),
         map (\<lambda>j. nanoid len (rng j)) [0..<10])"
      by (simp add: generateUniqueContent_def)
    have "init_handler concurrent len rng st a r now =
           (st, Reply 500 False
              (ErrorField ''Failed to generate unique content after multiple attempts''))"
      if "r \<notin> ref ` set (rows st)"
    proof -
      from that have "select_by_ref st r = []" by (simp add: select_by_ref_empty)
      with gen show ?thesis by (simp add: init_handler_def)
    qed
    with gen show ?thesis by blast
  qed
  from bounded reads exhausted show ?thesis by blast
qed

theorem generateUniqueContent_bounded_witness:
  "length (snd (generateUniqueContent 11 rng_zero store_zero)) = 10 \<and>
   fst (generateUniqueContent 11 rng_zero store_zero) =
     Inl (Error ''Failed to generate unique content after multiple attempts'') \<and>
   init_handler (\<lambda>s. s) 11 rng_zero store_zero (Integral 50000) ''ORDER-9'' 7000 =
     (store_zero, Reply 500 False
        (ErrorField ''Failed to generate unique content after multiple attempts''))"
proof -
  have draw: "nanoid 11 (rng_zero j) = ''00000000000''" for j
    by (simp add: nanoid_def rng_zero_def alphabet_def, code_simp)
  have collide: "\<forall>j<10. nanoid 11 (rng_zero j) \<in> content ` set (rows store_zero)"
    by (simp add: draw store_zero_def pending_one_def)
  have fresh: "''ORDER-9'' \<notin> ref ` set (rows store_zero)"
    by (simp add: store_zero_def pending_one_def)
  from generateUniqueContent_bounded[of 11 rng_zero store_zero "''ORDER-9''" "\<lambda>s. s" "Integral 50000" 7000]
    collide fresh
  show ?thesis by simp
qed

subsection \<open>POST /callback\<close>

lemma callback_handler_Some:
  "int4_in a = Inr b \<Longrightarrow> callback_handler st (Some w) a rc now =
     (case candidates st w a of
        [] \<Rightarrow> (st, Reply 404 False (MessageField ''Payment not found or already processed''))
      | p # _ \<Rightarrow>
          (case update_payment st (payment_id p) rc now of
             Inl e \<Rightarrow> (st, Reply 500 False (ErrorField (message e)))
           | Inr st' \<Rightarrow> (st', Reply 200 True (MessageField ''Payment processed successfully''))))"
  by (simp add: callback_handler_def select_then_filter_Some)

lemma candidates_first:
  assumes "candidates st w a = p # rest"
  obtains us vs where "rows st = us @ p # vs" "\<forall>u \<in> set us. \<not> selectable w a u"
    "selectable w a p" "rest = filter (selectable w a) vs"
  using assms unfolding candidates_def filter_eq_Cons_iff by blast

lemma update_payment_accepted:
  assumes "p \<in> set (rows st)" "accepts st p rc"
  shows "update_payment st (payment_id p) rc now =
    Inr (st\<lparr>rows := map (\<lambda>q. if payment_id q = payment_id p then set_paid rc now q else q) (rows st)\<rparr>)"
  using assms by (auto simp: update_payment_def accepts_def)

lemma update_payment_rejected:
  assumes "p \<in> set (rows st)" "\<not> accepts st p rc"
  shows "\<exists>e. update_payment st (payment_id p) rc now = Inl e"
  using assms by (auto simp: update_payment_def accepts_def)

lemma map_by_id_split:
  assumes "distinct (map payment_id (us @ p # vs))"
  shows "map (\<lambda>q. if payment_id q = payment_id p then f q else q) (us @ p # vs) = us @ f p # vs"
proof -
  from assms have "payment_id p \<notin> payment_id ` set us" "payment_id p \<notin> payment_id ` set vs"
    by auto
  then have "\<forall>q \<in> set us \<union> set vs. payment_id q \<noteq> payment_id p" by (metis UnE imageI)
  then show ?thesis by (simp add: map_idI)
qed

lemma callback_handler_first:
  assumes ids: "distinct (map payment_id (rows st))"
    and split: "rows st = us @ p # vs"
    and cands: "candidates st w a = p # rest"
  shows "accepts st p rc \<Longrightarrow> callback_handler st (Some w) a rc now =
      (st\<lparr>rows := us @ set_paid rc now p # vs\<rparr>,
       Reply 200 True (MessageField ''Payment processed successfully''))"
    and "\<not> accepts st p rc \<Longrightarrow> \<exists>e. callback_handler st (Some w) a rc now =
      (st, Reply 500 False (ErrorField (message e)))"
proof -
  from split have mem: "p \<in> set (rows st)" by simp
  from ids split have m: "map (\<lambda>q. if payment_id q = payment_id p then set_paid rc now q else q) (rows st)
      = us @ set_paid rc now p # vs"
    using map_by_id_split[of us p vs] by simp
  show "callback_handler st (Some w) a rc now =
      (st\<lparr>rows := us @ set_paid rc now p # vs\<rparr>,
       Reply 200 True (MessageField ''Payment processed successfully''))" if "accepts st p rc"
    using update_payment_accepted[OF mem that, of now] cands m
    by (simp add: callback_handler_Some[OF candidates_int4[OF cands]])
  show "\<exists>e. callback_handler st (Some w) a rc now =
      (st, Reply 500 False (ErrorField (message e)))" if "\<not> accepts st p rc"
    using update_payment_rejected[OF mem that, of now] cands
    by (auto simp add: callback_handler_Some[OF candidates_int4[OF cands]])
qed

text \<open>
  Claim C1, as amended. For every storage and every callback with a memo: the handler's
  candidates are exactly the pending records whose amount equals the transferred number
  and whose content is a substring of the memo (when the database cannot read the number
  as an \<^verbatim>\<open>integer\<close> the select is rejected, and no record has such an amount). When
  there is one and the database accepts the update of the
  first (the reference code fits \<^verbatim>\<open>varchar(100)\<close> and is the \<^verbatim>\<open>txn_id\<close> of no other
  record), the handler replies with success, and the selected record has \<^verbatim>\<open>status\<close>
  true, \<^verbatim>\<open>txnId\<close> the reference code and \<^verbatim>\<open>updatedAt\<close> the time of the call.
\<close>
theorem callback_match:
  "(case int4_in a of
      Inl e \<Rightarrow> select_then_filter st (Some w) a = Inl e \<and> candidates st w a = []
    | Inr b \<Rightarrow> select_then_filter st (Some w) a = Inr (candidates st w a)) \<and>
   set (candidates st w a) =
     {p \<in> set (rows st). status p = False \<and> Integral (sint (amount p)) = a \<and>
        (\<exists>ps ss. w = ps @ content p @ ss)} \<and>
   (candidates st w a = p # rest \<and> accepts st p rc \<longrightarrow>
      (\<exists>st'. callback_handler st (Some w) a rc now =
           (st', Reply 200 True (MessageField ''Payment processed successfully'')) \<and>
         rows st' =
           map (\<lambda>q. if payment_id q = payment_id p then set_paid rc now q else q) (rows st) \<and>
         seq st' = seq st \<and>
         p\<lparr>txnId := Some rc, status := True, updatedAt := Some now\<rparr> \<in> set (rows st')))"
proof -
  have payments: "case int4_in a of
      Inl e \<Rightarrow> select_then_filter st (Some w) a = Inl e \<and> candidates st w a = []
    | Inr b \<Rightarrow> select_then_filter st (Some w) a = Inr (candidates st w a)"
    using select_then_filter_rejected[of a _ st "Some w" w] select_then_filter_Some[of a _ st w]
    by (simp split: sum.split)
  have set_eq: "set (candidates st w a) =
     {p \<in> set (rows st). status p = False \<and> Integral (sint (amount p)) = a \<and>
        (\<exists>ps ss. w = ps @ content p @ ss)}"
    by (auto simp: candidates_def selectable_def includes_iff)
  have upd: "\<exists>st'. callback_handler st (Some w) a rc now =
           (st', Reply 200 True (MessageField ''Payment processed successfully'')) \<and>
         rows st' =
           map (\<lambda>q. if payment_id q = payment_id p then set_paid rc now q else q) (rows st) \<and>
         seq st' = seq st \<and>
         p\<lparr>txnId := Some rc, status := True, updatedAt := Some now\<rparr> \<in> set (rows st')"
    if cands: "candidates st w a = p # rest" and acc: "accepts st p rc"
  proof -
    from cands have "p \<in> set (candidates st w a)" by simp
    then have mem: "p \<in> set (rows st)" by (simp add: candidates_def)
    let ?st' = "st\<lparr>rows :=
      map (\<lambda>q. if payment_id q = payment_id p then set_paid rc now q else q) (rows st)\<rparr>"
    have "callback_handler st (Some w) a rc now =
        (?st', Reply 200 True (MessageField ''Payment processed successfully''))"
      using update_payment_accepted[OF mem acc, of now] cands
      by (simp add: callback_handler_Some[OF candidates_int4[OF cands]])
    moreover have "set_paid rc now p \<in> set (rows ?st')"
      using mem by (auto simp: image_iff intro!: bexI[of _ p])
    ultimately show ?thesis by (auto simp: set_paid_def)
  qed
  from payments set_eq upd show ?thesis by blast
qed

text \<open>The example of the specification: the memo around the token, 50000, one pending record.\<close>
theorem callback_match_witness:
  "candidates store_two memo (Integral 50000) = [pending_one] \<and>
   callback_handler store_two (Some memo) (Integral 50000) ''FT24002'' 5000 =
     (\<lparr>rows = [pending_one\<lparr>txnId := Some ''FT24002'', status := True, updatedAt := Some 5000\<rparr>,
               paid_two], seq = 3\<rparr>,
      Reply 200 True (MessageField ''Payment processed successfully''))"
proof -
  have c: "candidates store_two memo (Integral 50000) = [pending_one]" by code_simp
  have acc: "accepts store_two pending_one ''FT24002''" by code_simp
  have m: "map (\<lambda>q. if payment_id q = payment_id pending_one then set_paid ''FT24002'' 5000 q else q)
      (rows store_two) =
      [pending_one\<lparr>txnId := Some ''FT24002'', status := True, updatedAt := Some 5000\<rparr>, paid_two]"
    by (simp add: store_two_def pending_one_def paid_two_def set_paid_def)
  have s: "seq store_two = 3" by (simp add: store_two_def)
  from callback_match[where st = store_two and w = memo and a = "Integral 50000"
      and p = pending_one and rest = "[]" and rc = "''FT24002''" and now = 5000] c acc
  obtain st' where "callback_handler store_two (Some memo) (Integral 50000) ''FT24002'' 5000 =
      (st', Reply 200 True (MessageField ''Payment processed successfully''))"
    and "rows st' = map (\<lambda>q. if payment_id q = payment_id pending_one
        then set_paid ''FT24002'' 5000 q else q) (rows store_two)"
    and "seq st' = seq store_two" by blast
  with m s c show ?thesis by (cases st') simp
qed

text \<open>
  Claim C1 as stated fails where the reference code is already the \<^verbatim>\<open>txn_id\<close> of
  another record: the candidate is there, the database rejects the update under
  \<^verbatim>\<open>payment_txn_id_unique\<close>, and the handler replies 500 and changes nothing.
\<close>
theorem callback_match_rejected:
  "candidates store_two memo (Integral 50000) = [pending_one] \<and>
   callback_handler store_two (Some memo) (Integral 50000) ''FT24001'' 5000 =
     (store_two, Reply 500 False
        (ErrorField (message (unique_violation ''payment_txn_id_unique''))))"
  by code_simp

text \<open>
  Claim C3, as amended. For every storage and every callback with a memo and with a
  transferred amount that is an integer of the 32 bits of the column, when no pending
  record has the transferred amount and a content that is a substring of the memo, the
  handler replies 404 with the message of the not-found outcome, and the storage is
  unchanged.
\<close>
theorem callback_no_match:
  assumes "- (2 ^ 31) \<le> n" "n < 2 ^ 31"
    and "candidates st w (Integral n) = []"
  shows "callback_handler st (Some w) (Integral n) rc now =
    (st, Reply 404 False (MessageField ''Payment not found or already processed''))"
  using assms(3) callback_handler_Some[OF int4_in_Integral(1)[OF assms(1,2)], of st w rc now]
  by simp

theorem callback_no_match_witness:
  "candidates store_two memo (Integral 70000) = [] \<and>
   callback_handler store_two (Some memo) (Integral 70000) ''FT24002'' 5000 =
    (store_two, Reply 404 False (MessageField ''Payment not found or already processed''))"
proof -
  have h: "candidates store_two memo (Integral 70000) = []" by code_simp
  have lo: "- (2 ^ 31) \<le> (70000 :: int)" and hi: "(70000 :: int) < 2 ^ 31" by simp_all
  show ?thesis using h callback_no_match [OF lo hi h] by simp
qed

text \<open>
  Claim C3 as stated fails for a transferred amount beyond the 32 bits of the column: no
  record has this amount, the database rejects the select, and the handler replies 500
  instead of the 404 of the not-found outcome. The storage is unchanged.
\<close>
theorem callback_no_match_out_of_range:
  "candidates store_two memo (Integral 2147483648) = [] \<and>
   show_int 2147483648 = ''2147483648'' \<and>
   callback_handler store_two (Some memo) (Integral 2147483648) ''FT24002'' 5000 =
     (store_two, Reply 500 False (ErrorField (message (out_of_range 2147483648))))"
proof -
  have "candidates store_two memo (Integral 2147483648) = []" by code_simp
  moreover have "show_int 2147483648 = ''2147483648''"
    by (simp add: show_int_def show_nat.simps digit_def)
  moreover have "callback_handler store_two (Some memo) (Integral 2147483648) ''FT24002'' 5000 =
     (store_two, Reply 500 False (ErrorField (message (out_of_range 2147483648))))"
    by (simp add: callback_handler_def select_then_filter_def select_pending_amount_def
        int4_in_def)
  ultimately show ?thesis by simp
qed

text \<open>
  Claim C10, as amended. A callback whose body has no \<^verbatim>\<open>content\<close> never changes the
  storage. It is answered with 500 when the database cannot read the transferred amount
  as an \<^verbatim>\<open>integer\<close> (the message of the rejected select) and when some pending record
  has the transferred amount (the message of the \<^verbatim>\<open>TypeError\<close>); otherwise it is
  answered with the 404 of the not-found outcome, since \<^verbatim>\<open>filter\<close> calls its function
  on no element.
\<close>
theorem callback_without_content:
  "callback_handler st None a rc now =
     (st, case int4_in a of
            Inl e \<Rightarrow> Reply 500 False (ErrorField (message e))
          | Inr b \<Rightarrow>
              if \<exists>p \<in> set (rows st). amount p = b \<and> status p = False
              then Reply 500 False
                (ErrorField ''Cannot read properties of undefined (reading 'includes')'')
              else Reply 404 False
                (MessageField ''Payment not found or already processed''))"
proof (cases "int4_in a")
  case (Inl e)
  then show ?thesis
    by (simp add: callback_handler_def select_then_filter_def select_pending_amount_def)
next
  case (Inr b)
  let ?results = "filter (\<lambda>p. amount p = b \<and> status p = False) (rows st)"
  show ?thesis
  proof (cases ?results)
    case Nil
    then have "\<not> (\<exists>p \<in> set (rows st). amount p = b \<and> status p = False)"
      by (simp add: filter_empty_conv)
    with Nil Inr show ?thesis
      by (simp add: callback_handler_def select_then_filter_def select_pending_amount_def)
  next
    case (Cons p ps)
    then have "p \<in> set ?results" by simp
    then have "\<exists>p \<in> set (rows st). amount p = b \<and> status p = False" by auto
    with Cons Inr show ?thesis
      by (simp add: callback_handler_def select_then_filter_def select_pending_amount_def)
  qed
qed

theorem callback_without_content_witness:
  "callback_handler store_two None (Integral 50000) ''FT24003'' 5000 =
     (store_two, Reply 500 False
        (ErrorField ''Cannot read properties of undefined (reading 'includes')'')) \<and>
   callback_handler store_two None (Fractional ''50000.5'') ''FT24003'' 5000 =
     (store_two, Reply 500 False (ErrorField (message (invalid_integer ''50000.5''))))"
proof -
  have a: "int4_in (Integral 50000) = Inr 50000" by code_simp
  have b: "int4_in (Fractional ''50000.5'') = Inl (invalid_integer ''50000.5'')"
    by (simp add: int4_in_def)
  have r: "rows store_two = [pending_one, paid_two]" by (simp add: store_two_def)
  have p: "amount pending_one = 50000" "status pending_one = False"
    by (simp_all add: pending_one_def)
  from callback_without_content[of store_two "Integral 50000" "''FT24003''" 5000]
    callback_without_content[of store_two "Fractional ''50000.5''" "''FT24003''" 5000]
    a b r p
  show ?thesis by simp
qed

text \<open>
  Claim C10 as stated fails on a storage without a pending record of the transferred
  amount, when the amount is an integer of the 32 bits of the column: the reply is 404,
  not 500.
\<close>
theorem callback_without_content_not_found:
  "callback_handler store_two None (Integral 70000) ''FT24003'' 5000 =
     (store_two, Reply 404 False (MessageField ''Payment not found or already processed''))"
  by code_simp

lemma set_paid_not_selectable: "\<not> selectable w a (set_paid rc now p)"
  by (simp add: selectable_def set_paid_def)

text \<open>
  Claim C4, as amended. For every storage with distinct ids in which exactly one pending
  record matches the payload, and whose update the database accepts: the first call
  replies with success and turns exactly this record, at its place in the storage, from
  pending to paid; a second call with the same payload replies 404 with the message of
  the not-found outcome and leaves the storage as the first call left it.
\<close>
theorem callback_twice:
  assumes ids: "distinct (map payment_id (rows st))"
    and one: "candidates st w a = [p]"
    and acc: "accepts st p rc"
  shows "\<exists>st1 i. callback_handler st (Some w) a rc now =
             (st1, Reply 200 True (MessageField ''Payment processed successfully'')) \<and>
           i < length (rows st) \<and> rows st ! i = p \<and> status p = False \<and>
           rows st1 = (rows st)[i := set_paid rc now p] \<and>
           status (set_paid rc now p) = True \<and> seq st1 = seq st \<and>
           callback_handler st1 (Some w) a rc later =
             (st1, Reply 404 False (MessageField ''Payment not found or already processed''))"
proof -
  from one obtain us vs where split: "rows st = us @ p # vs"
    and before: "\<forall>u \<in> set us. \<not> selectable w a u"
    and sel: "selectable w a p"
    and after: "[] = filter (selectable w a) vs"
    by (rule candidates_first)
  let ?st1 = "st\<lparr>rows := us @ set_paid rc now p # vs\<rparr>"
  have first: "callback_handler st (Some w) a rc now =
      (?st1, Reply 200 True (MessageField ''Payment processed successfully''))"
    using callback_handler_first(1)[OF ids split one acc] .
  have "candidates ?st1 w a = []"
    using before after[symmetric] by (simp add: candidates_def set_paid_not_selectable)
  then have second: "callback_handler ?st1 (Some w) a rc later =
      (?st1, Reply 404 False (MessageField ''Payment not found or already processed''))"
    by (simp add: callback_handler_Some[OF candidates_int4[OF one]])
  have "length us < length (rows st)" "rows st ! length us = p"
    "rows ?st1 = (rows st)[length us := set_paid rc now p]"
    using split by simp_all
  moreover from sel have "status p = False" by (simp add: selectable_def)
  moreover have "status (set_paid rc now p) = True" by (simp add: set_paid_def)
  moreover have "seq ?st1 = seq st" by simp
  ultimately show ?thesis using first second by blast
qed

theorem callback_twice_witness:
  "callback_handler store_two (Some memo) (Integral 50000) ''FT24002'' 5000 =
     (store_two\<lparr>rows := [set_paid ''FT24002'' 5000 pending_one, paid_two]\<rparr>,
      Reply 200 True (MessageField ''Payment processed successfully'')) \<and>
   callback_handler (store_two\<lparr>rows := [set_paid ''FT24002'' 5000 pending_one, paid_two]\<rparr>)
       (Some memo) (Integral 50000) ''FT24002'' 6000 =
     (store_two\<lparr>rows := [set_paid ''FT24002'' 5000 pending_one, paid_two]\<rparr>,
      Reply 404 False (MessageField ''Payment not found or already processed''))"
proof -
  have ids: "distinct (map payment_id (rows store_two))" by code_simp
  have one: "candidates store_two memo (Integral 50000) = [pending_one]" by code_simp
  have acc: "accepts store_two pending_one ''FT24002''" by code_simp
  have first: "callback_handler store_two (Some memo) (Integral 50000) ''FT24002'' 5000 =
     (store_two\<lparr>rows := [set_paid ''FT24002'' 5000 pending_one, paid_two]\<rparr>,
      Reply 200 True (MessageField ''Payment processed successfully''))" by code_simp
  from callback_twice[OF ids one acc, of 5000 6000] first show ?thesis by auto
qed

text \<open>
  Claim C4 as stated fails on a storage with two pending records that both match: the
  first call pays the first of them, and the second call selects the other one, whose
  update the database rejects under \<^verbatim>\<open>payment_txn_id_unique\<close>. The reply of the second
  call is 500, not the 404 of the not-found outcome.
\<close>
theorem callback_twice_twins:
  "candidates store_twins memo_twins (Integral 1000) = [twin_a, twin_b] \<and>
   callback_handler store_twins (Some memo_twins) (Integral 1000) ''FT24005'' 5000 =
     (store_twins\<lparr>rows := [set_paid ''FT24005'' 5000 twin_a, twin_b]\<rparr>,
      Reply 200 True (MessageField ''Payment processed successfully'')) \<and>
   callback_handler (store_twins\<lparr>rows := [set_paid ''FT24005'' 5000 twin_a, twin_b]\<rparr>)
       (Some memo_twins) (Integral 1000) ''FT24005'' 6000 =
     (store_twins\<lparr>rows := [set_paid ''FT24005'' 5000 twin_a, twin_b]\<rparr>,
      Reply 500 False (ErrorField (message (unique_violation ''payment_txn_id_unique''))))"
  by code_simp



subsection \<open>POST /init\<close>

text \<open>
  Claim C5. For every storage that holds a record with the supplied \<^verbatim>\<open>ref\<close>, whatever
  other requests do meanwhile, the handler of \<^verbatim>\<open>POST /init\<close> replies 400 with the
  error \<^verbatim>\<open>Reference code already exists\<close> and returns the storage as it was.
\<close>
theorem init_duplicate_ref:
  assumes "p \<in> set (rows st)" "ref p = r"
  shows "init_handler concurrent len rng st a r now =
    (st, Reply 400 False (ErrorField ''Reference code already exists''))"
proof -
  from assms have "r \<in> ref ` set (rows st)" by auto
  then have "select_by_ref st r \<noteq> []" by (simp add: select_by_ref_empty)
  then show ?thesis by (simp add: init_handler_def)
qed

theorem init_duplicate_ref_witness:
  "init_handler id 11 rng_zero store_two (Integral 50000) ''ORDER-1'' 6000 =
    (store_two, Reply 400 False (ErrorField ''Reference code already exists''))"
proof -
  have m: "pending_one \<in> set (rows store_two)" by (simp add: store_two_def)
  have r: "ref pending_one = ''ORDER-1''" by (simp add: pending_one_def)
  from init_duplicate_ref[OF m r] show ?thesis .
qed

lemma insert_payment_rows:
  "snd (insert_payment st a r cont now) = Some e \<Longrightarrow>
     rows (fst (insert_payment st a r cont now)) = rows st"
  by (auto simp: insert_payment_def Let_def split: sum.splits option.splits if_splits)

lemma unique_violation_message:
  "message (unique_violation k) \<noteq> ''Reference code already exists''"
  by (simp add: unique_violation_def)

text \<open>
  Claim C6, as amended. Whenever the handler has passed its check on \<^verbatim>\<open>ref\<close> and has
  generated a content, and the database rejects the insert under a \<^verbatim>\<open>UNIQUE\<close>
  constraint, the handler replies 500 with the message of the database; this is not the
  reply of the check on \<^verbatim>\<open>ref\<close> (400, \<^verbatim>\<open>Reference code already exists\<close>). The rows
  are those that the other requests have committed.
\<close>
theorem init_insert_rejected:
  assumes "r \<notin> ref ` set (rows st)"
    and "fst (generateUniqueContent len rng st) = Inr cont"
    and "snd (insert_payment (concurrent st) a r cont now) = Some (unique_violation k)"
  shows "\<exists>st'. init_handler concurrent len rng st a r now =
           (st', Reply 500 False (ErrorField (message (unique_violation k)))) \<and>
         rows st' = rows (concurrent st) \<and>
         Reply 500 False (ErrorField (message (unique_violation k))) \<noteq>
           Reply 400 False (ErrorField ''Reference code already exists'')"
proof -
  from assms(1) have pre: "select_by_ref st r = []" by (simp add: select_by_ref_empty)
  obtain st' where ins: "insert_payment (concurrent st) a r cont now = (st', Some (unique_violation k))"
    using assms(3) by (cases "insert_payment (concurrent st) a r cont now") simp
  then have "rows st' = rows (concurrent st)"
    using insert_payment_rows[of "concurrent st" a r cont now "unique_violation k"] by simp
  moreover have "init_handler concurrent len rng st a r now =
           (st', Reply 500 False (ErrorField (message (unique_violation k))))"
    using pre assms(2) ins by (simp add: init_handler_def)
  ultimately show ?thesis by simp
qed

theorem init_insert_rejected_witness:
  "snd (insert_payment (rival store_two) (Integral 50000) ''ORDER-3'' (Some ''11111111111'') 6000) =
     Some (unique_violation ''payment_ref_unique'') \<and>
   snd (init_handler rival 11 rng_one store_two (Integral 50000) ''ORDER-3'' 6000) =
     Reply 500 False (ErrorField (message (unique_violation ''payment_ref_unique''))) \<and>
   rows (fst (init_handler rival 11 rng_one store_two (Integral 50000) ''ORDER-3'' 6000)) =
     rows (rival store_two)"
proof -
  have pre: "''ORDER-3'' \<notin> ref ` set (rows store_two)"
    by (simp add: store_two_def pending_one_def paid_two_def)
  have gen: "fst (generateUniqueContent 11 rng_one store_two) = Inr (Some ''11111111111'')"
    by code_simp
  have ins: "snd (insert_payment (rival store_two) (Integral 50000) ''ORDER-3'' (Some ''11111111111'') 6000) =
     Some (unique_violation ''payment_ref_unique'')"
    by code_simp
  from init_insert_rejected[where concurrent = rival and st = store_two, OF pre gen ins] ins
  show ?thesis by auto
qed

text \<open>
  Claim C6 as stated fails: when the rival request commits its record between the check
  and the insert, the reply is 500 with the message of the constraint, while the same
  request after the rival is answered by the check with 400.
\<close>
theorem init_race_not_duplicate_reference:
  "snd (init_handler rival 11 rng_one store_two (Integral 50000) ''ORDER-3'' 6000) =
     Reply 500 False (ErrorField (message (unique_violation ''payment_ref_unique''))) \<and>
   snd (init_handler id 11 rng_one (rival store_two) (Integral 50000) ''ORDER-3'' 6000) =
     Reply 400 False (ErrorField ''Reference code already exists'')"
  by code_simp

subsection \<open>GET /search\<close>

text \<open>
  Claim C2 does not hold of the code. For every storage and every query the handler of
  \<^verbatim>\<open>GET /search\<close> replies 500 with the message of the \<^verbatim>\<open>ReferenceError\<close>, since
  \<^verbatim>\<open>formatPaymentResponse\<close> has no binding.
\<close>
theorem search_reference_error:
  "search_handler formatPaymentResponse st q =
     SearchError 500 ''formatPaymentResponse is not defined''"
  by (simp add: search_handler_def formatPaymentResponse_def)

theorem search_reference_error_witness:
  "(search_handler formatPaymentResponse store_two january_unpaid :: payment search_reply) =
     SearchError 500 ''formatPaymentResponse is not defined''"
  by (rule search_reference_error)

text \<open>
  The patterns of the handler test for a substring when the text of the filter is plain;
  a wildcard in the text of the filter is read as a wildcard.
\<close>

lemma like_any: "like s ''%''"
  by (induction s) (simp_all add: like.simps)

lemma like_plain_prefix: "plain t \<Longrightarrow> like s (t @ ''%'') = startsWith s t"
proof (induction t arbitrary: s)
  case Nil
  then show ?case by (simp add: like_any)
next
  case (Cons c t)
  then have "plain t" and c: "c \<noteq> CHR ''%''" "c \<noteq> CHR ''_''" "c \<noteq> CHR 0x5C"
    by (simp_all add: plain_def)
  have step: "like s' (c # t @ ''%'') =
      (case s' of [] \<Rightarrow> False | d # s'' \<Rightarrow> d = c \<and> like s'' (t @ ''%''))" for s'
    by (simp only: like.simps(2)[of s' c "t @ ''%''"] c if_False)
  show ?case
  proof (cases s)
    case Nil
    then show ?thesis by (simp add: step)
  next
    case (Cons d s'')
    with Cons.IH[OF \<open>plain t\<close>, of s''] show ?thesis by (auto simp add: step)
  qed
qed

lemma like_plain_substring:
  assumes "plain t"
  shows "like s (''%'' @ t @ ''%'') = includes_str s t"
proof (induction s)
  case Nil
  have "like [] (''%'' @ t @ ''%'') = like [] (t @ ''%'')"
    by (simp add: like.simps(2)[of _ "CHR ''%''"])
  also have "\<dots> = startsWith [] t" by (rule like_plain_prefix[OF assms])
  also have "\<dots> = (t = [])" by (cases t) simp_all
  finally show ?case by simp
next
  case (Cons d s)
  have "like (d # s) (''%'' @ t @ ''%'') =
      (like (d # s) (t @ ''%'') \<or> like s (''%'' @ t @ ''%''))"
    by (simp add: like.simps(2)[of _ "CHR ''%''"])
  with Cons like_plain_prefix[OF assms, of "d # s"] show ?case by simp
qed

lemma like_wildcard: "like ''ORDER-1'' ''%R-_%'' \<and> \<not> includes_str ''ORDER-1'' ''R-_''"
  by code_simp

text \<open>
  With a binding for the identifier the handler would send the mapped rows that satisfy
  the conditions, in ascending order of \<^verbatim>\<open>createdAt\<close>, and their number.
\<close>
lemma search_handler_bound:
  "search_handler (Some f) st q =
     SearchData (map f (select_where_ordered st (conditions_of q)))
       (length (select_where_ordered st (conditions_of q)))"
  by (simp add: search_handler_def Let_def)

lemma select_where_ordered_sorted:
  "sorted (map createdAt (select_where_ordered st cs))"
  by (simp add: select_where_ordered_def)

end
